theory Spec2Isabelle
  imports Main "HOL-Library.Word"
begin

unbundle bit_operations_syntax

section \<open>The STAMP session-reflector helpers of \<^verbatim>\<open>headers/stamp.h\<close>\<close>

text \<open>
  The header holds five C functions that run inside a traffic-control eBPF program:
  \<^verbatim>\<open>timestamp\<close> and \<^verbatim>\<open>untimestamp\<close> (the NTP-style timestamp codec),
  \<^verbatim>\<open>for_me\<close> (the frame classifier), \<^verbatim>\<open>pkt_turnaround\<close> (the address swap
  and redirect) and \<^verbatim>\<open>stampoffset\<close> (the field-offset helper). Each is embedded below
  as a HOL function over fixed-width words and byte lists.
\<close>

subsection \<open>Machine integers and byte order\<close>

type_synonym u8 = "8 word"
type_synonym u16 = "16 word"
type_synonym u32 = "32 word"
type_synonym u64 = "64 word"

text \<open>
  An eBPF object is built for a little-endian (\<^verbatim>\<open>bpfel\<close>) or a big-endian
  (\<^verbatim>\<open>bpfeb\<close>) target. The byte order of the target decides how a scalar lies in
  memory and what the \<^verbatim>\<open>bpf_htons\<close> family does, so it is a parameter of the model.
\<close>

datatype endian = Little | Big

text \<open>
  Modelled from the spec: the byte-swap macros of \<^verbatim>\<open>bpf/bpf_endian.h\<close> are not part of
  the sources; the spec only says that wire fields are big-endian and converted to and from host
  order. They are written here as the shift-and-mask expressions of that header.
\<close>

definition swab16 :: "u16 \<Rightarrow> u16" where
  "swab16 x = push_bit 8 (x AND 0x00ff) OR drop_bit 8 (x AND 0xff00)"

definition swab32 :: "u32 \<Rightarrow> u32" where
  "swab32 x = push_bit 24 (x AND 0x000000ff) OR push_bit 8 (x AND 0x0000ff00)
            OR drop_bit 8 (x AND 0x00ff0000) OR drop_bit 24 (x AND 0xff000000)"

definition bpf_htons :: "endian \<Rightarrow> u16 \<Rightarrow> u16" where
  "bpf_htons e x = (case e of Little \<Rightarrow> swab16 x | Big \<Rightarrow> x)"

definition bpf_ntohs :: "endian \<Rightarrow> u16 \<Rightarrow> u16" where
  "bpf_ntohs e x = (case e of Little \<Rightarrow> swab16 x | Big \<Rightarrow> x)"

definition bpf_htonl :: "endian \<Rightarrow> u32 \<Rightarrow> u32" where
  "bpf_htonl e x = (case e of Little \<Rightarrow> swab32 x | Big \<Rightarrow> x)"

definition bpf_ntohl :: "endian \<Rightarrow> u32 \<Rightarrow> u32" where
  "bpf_ntohl e x = (case e of Little \<Rightarrow> swab32 x | Big \<Rightarrow> x)"

text \<open>
  Scalars in memory. \<open>le_word\<close> assembles a word from bytes, lowest address least
  significant; \<open>be_word\<close> is the wire (network) order. \<open>val_of\<close> is what a load of
  a scalar from the given bytes yields on the target, \<open>mem_u32\<close> the bytes a 32-bit
  scalar occupies there.
\<close>

fun le_word :: "u8 list \<Rightarrow> 'a::len word" where
  "le_word [] = 0"
| "le_word (b # bs) = ucast b OR push_bit 8 (le_word bs)"

definition be_word :: "u8 list \<Rightarrow> 'a::len word" where
  "be_word bs = le_word (rev bs)"

definition val_of :: "endian \<Rightarrow> u8 list \<Rightarrow> 'a::len word" where
  "val_of e bs = (case e of Little \<Rightarrow> le_word bs | Big \<Rightarrow> be_word bs)"

definition le_bytes32 :: "u32 \<Rightarrow> u8 list" where
  "le_bytes32 x = [ucast x, ucast (drop_bit 8 x), ucast (drop_bit 16 x), ucast (drop_bit 24 x)]"

definition be_bytes32 :: "u32 \<Rightarrow> u8 list" where
  "be_bytes32 x = rev (le_bytes32 x)"

definition mem_u32 :: "endian \<Rightarrow> u32 \<Rightarrow> u8 list" where
  "mem_u32 e x = (case e of Little \<Rightarrow> le_bytes32 x | Big \<Rightarrow> be_bytes32 x)"

subsection \<open>Constants and layouts of the kernel headers\<close>

text \<open>
  Modelled from the spec: the declarations of \<^verbatim>\<open>struct ethhdr\<close>, \<^verbatim>\<open>struct iphdr\<close>,
  \<^verbatim>\<open>struct udphdr\<close> and of the constants \<^verbatim>\<open>ETH_P_IP\<close>, \<^verbatim>\<open>IPPROTO_UDP\<close>,
  \<^verbatim>\<open>TCX_PASS\<close> and the redirect code come from the Linux UAPI headers, which are not part of
  the sources. The spec fixes the wire format as Ethernet, then IPv4, then UDP, with 6-byte
  hardware and 4-byte network addresses; sizes and field offsets are those of the wire format
  (14, 20 and 8 bytes).
\<close>

definition sizeof_ethhdr :: nat where "sizeof_ethhdr = 14"
definition sizeof_iphdr :: nat where "sizeof_iphdr = 20"
definition sizeof_udphdr :: nat where "sizeof_udphdr = 8"

definition off_h_dest :: nat where "off_h_dest = 0"
definition off_h_source :: nat where "off_h_source = 6"
definition off_ip_protocol :: nat where "off_ip_protocol = 9"
definition off_saddr :: nat where "off_saddr = 12"
definition off_daddr :: nat where "off_daddr = 16"
definition off_udp_source :: nat where "off_udp_source = 0"
definition off_udp_dest :: nat where "off_udp_dest = 2"

definition ETH_P_IP :: u16 where "ETH_P_IP = 0x0800"
definition IPPROTO_UDP :: u8 where "IPPROTO_UDP = 17"
definition TCX_PASS :: "'a::len word" where "TCX_PASS = 0"
definition TC_ACT_SHOT :: u64 where "TC_ACT_SHOT = 2"
definition TC_ACT_REDIRECT :: u64 where "TC_ACT_REDIRECT = 7"
definition BPF_F_INGRESS :: u64 where "BPF_F_INGRESS = 1"

text \<open>
  The context \<^verbatim>\<open>struct __sk_buff\<close>. Of its fields the code reads \<^verbatim>\<open>protocol\<close>,
  \<^verbatim>\<open>ifindex\<close>, \<^verbatim>\<open>data\<close> and \<^verbatim>\<open>data_end\<close>. The frame is the byte list
  \<open>pkt\<close>: \<^verbatim>\<open>data\<close> points at its first byte and \<^verbatim>\<open>data_end\<close> one past its
  last, so \<^verbatim>\<open>data + n > data_end\<close> is \<open>n > length pkt\<close>.
\<close>

record sk_buff =
  protocol :: u32
  ifindex :: u32
  pkt :: "u8 list"

text \<open>
  Modelled from the spec: the kernel helpers \<^verbatim>\<open>bpf_skb_store_bytes\<close>,
  \<^verbatim>\<open>bpf_skb_load_bytes\<close> and \<^verbatim>\<open>bpf_redirect\<close> are not part of the sources. The
  spec describes them as in-place writes and reads of a sub-range of the frame, checked against
  the frame's length, and as the signal to send the frame out of an interface. A store outside
  the frame fails and writes nothing; a load outside the frame fails and zeroes the destination;
  the status codes are discarded by every caller in the header. With flags 0 the stores
  recompute no checksum.
\<close>

definition bpf_skb_store_bytes :: "u8 list \<Rightarrow> nat \<Rightarrow> u8 list \<Rightarrow> u8 list" where
  "bpf_skb_store_bytes frame offset from =
     (if offset + length from > length frame then frame
      else take offset frame @ from @ drop (offset + length from) frame)"

definition bpf_skb_load_bytes :: "u8 list \<Rightarrow> nat \<Rightarrow> nat \<Rightarrow> u8 list" where
  "bpf_skb_load_bytes frame offset len =
     (if offset + len > length frame then replicate len 0
      else take len (drop offset frame))"

definition bpf_redirect :: "u32 \<Rightarrow> u64 \<Rightarrow> u64 \<times> u32 option" where
  "bpf_redirect ifidx flags =
     (if flags AND NOT BPF_F_INGRESS \<noteq> 0 then (TC_ACT_SHOT, None)
      else (TC_ACT_REDIRECT, Some ifidx))"

text \<open>
  Direct packet access: the bytes of a field at \<open>off\<close>, \<open>n\<close> bytes wide. Every such
  access in the header follows a comparison against \<^verbatim>\<open>data_end\<close>.
\<close>

definition field_bytes :: "u8 list \<Rightarrow> nat \<Rightarrow> nat \<Rightarrow> u8 list" where
  "field_bytes frame off n = take n (drop off frame)"

subsection \<open>The timestamp codec\<close>

record ntp_ts =
  ntp_secs :: u32
  ntp_fracs :: u32

text \<open>
  \<^verbatim>\<open>timestamp\<close> reads the TAI clock (\<^verbatim>\<open>bpf_ktime_get_tai_ns\<close>, here the argument
  \<open>tai_ns\<close>), overwrites both fields of \<^verbatim>\<open>*arg\<close> and returns 0. The result is the
  pair of the return value and the struct written.
\<close>

definition timestamp :: "endian \<Rightarrow> u64 \<Rightarrow> u32 \<times> ntp_ts" where
  "timestamp e tai_ns =
     (let utns = tai_ns;
          ntps = utns div 1000000000;
          ntpf = utns mod 1000000000;
          ntps = ntps + 2208988800;
          ntpf = ntpf * 1000;
          ntpf = ntpf div 232
      in (0, \<lparr>ntp_secs = bpf_htonl e (ucast ntps), ntp_fracs = bpf_htonl e (ucast ntpf)\<rparr>))"

definition untimestamp :: "endian \<Rightarrow> ntp_ts \<Rightarrow> u64" where
  "untimestamp e arg =
     (let unix_s = (ucast (bpf_ntohl e (ntp_secs arg)) :: u64);
          unix_ns = (ucast (bpf_ntohl e (ntp_fracs arg)) :: u64);
          unix_s = unix_s - 2208988800;
          unix_ns = unix_ns * 232;
          unix_ns = unix_ns div 1000;
          res = unix_s * 1000000000;
          res = res + unix_ns
      in res)"

text \<open>The bytes the struct occupies in memory, field after field.\<close>

definition ntp_ts_bytes :: "endian \<Rightarrow> ntp_ts \<Rightarrow> u8 list" where
  "ntp_ts_bytes e ts = mem_u32 e (ntp_secs ts) @ mem_u32 e (ntp_fracs ts)"

subsection \<open>The frame classifier\<close>

text \<open>
  \<^verbatim>\<open>for_me\<close> returns \<^verbatim>\<open>TCX_PASS\<close> (0) to reject and 1 to accept. The function
  \<open>for_me_reads\<close> follows its control flow and returns, next to the result, the frame
  accesses made on the way, each as offset and width, in program order (the right operand of
  \<^verbatim>\<open>||\<close> is evaluated only when the left one is false).
\<close>

definition for_me_reads :: "endian \<Rightarrow> sk_buff \<Rightarrow> u32 \<times> (nat \<times> nat) list" where
  "for_me_reads e skb =
     (if protocol skb \<noteq> ucast (bpf_htons e ETH_P_IP) then (TCX_PASS, [])
      else
        let data = pkt skb;
            data_end = length data;
            iph = sizeof_ethhdr
        in
        if sizeof_iphdr + sizeof_ethhdr > data_end then (TCX_PASS, [])
        else if val_of e (field_bytes data (iph + off_ip_protocol) 1) \<noteq> IPPROTO_UDP
          then (TCX_PASS, [(iph + off_ip_protocol, 1)])
        else
          let udph = sizeof_iphdr + sizeof_ethhdr in
          if sizeof_iphdr + sizeof_udphdr + sizeof_ethhdr > data_end
            then (TCX_PASS, [(iph + off_ip_protocol, 1)])
          else if (val_of e (field_bytes data (udph + off_udp_dest) 2) :: u16) \<noteq> bpf_ntohs e 862
            then (TCX_PASS, [(iph + off_ip_protocol, 1), (udph + off_udp_dest, 2)])
          else if (val_of e (field_bytes data (udph + off_udp_source) 2) :: u16) \<noteq> bpf_ntohs e 862
            then (TCX_PASS, [(iph + off_ip_protocol, 1), (udph + off_udp_dest, 2),
                             (udph + off_udp_source, 2)])
          else (1, [(iph + off_ip_protocol, 1), (udph + off_udp_dest, 2),
                    (udph + off_udp_source, 2)]))"

definition for_me :: "endian \<Rightarrow> sk_buff \<Rightarrow> u32" where
  "for_me e skb = fst (for_me_reads e skb)"

subsection \<open>The turnaround\<close>

text \<open>
  The result of \<^verbatim>\<open>pkt_turnaround\<close>: the context with the frame as the function leaves
  it, the return value, the interface recorded by \<^verbatim>\<open>bpf_redirect\<close> (if it was called),
  and which of the three \<^verbatim>\<open>return\<close> statements was taken.
\<close>

datatype ret_site = Ret_hdr_check | Ret_mac_check | Ret_redirect

record turnaround_result =
  out_skb :: sk_buff
  ret :: u64
  tgt_index :: "u32 option"
  ret_at :: ret_site

text \<open>
  \<^verbatim>\<open>data\<close> and \<^verbatim>\<open>data_end\<close> are locals read once at the start; the second comparison
  uses the same two values.
\<close>

definition pkt_turnaround :: "endian \<Rightarrow> sk_buff \<Rightarrow> turnaround_result" where
  "pkt_turnaround e skb =
     (let data = pkt skb;
          data_end = length data;
          iph = sizeof_ethhdr
      in
      if sizeof_ethhdr + sizeof_iphdr > data_end
      then \<lparr>out_skb = skb, ret = TCX_PASS, tgt_index = None, ret_at = Ret_hdr_check\<rparr>
      else
        let src_ip = (val_of e (field_bytes data (iph + off_saddr) 4) :: u32);
            dest_ip = (val_of e (field_bytes data (iph + off_daddr) 4) :: u32);
            f1 = bpf_skb_store_bytes data (sizeof_ethhdr + off_saddr) (mem_u32 e dest_ip);
            f2 = bpf_skb_store_bytes f1 (sizeof_ethhdr + off_daddr) (mem_u32 e src_ip)
        in
        if sizeof_ethhdr > data_end
        then \<lparr>out_skb = skb\<lparr>pkt := f2\<rparr>, ret = TCX_PASS, tgt_index = None,
               ret_at = Ret_mac_check\<rparr>
        else
          let src_mac = bpf_skb_load_bytes f2 off_h_source 6;
              dest_mac = bpf_skb_load_bytes f2 off_h_dest 6;
              f3 = bpf_skb_store_bytes f2 off_h_source dest_mac;
              f4 = bpf_skb_store_bytes f3 off_h_dest src_mac;
              r = bpf_redirect (ifindex skb) 0
          in \<lparr>out_skb = skb\<lparr>pkt := f4\<rparr>, ret = fst r, tgt_index = snd r,
                ret_at = Ret_redirect\<rparr>)"

subsection \<open>The offset helper\<close>

text \<open>
  \<^verbatim>\<open>sizeof\<close> has type \<^verbatim>\<open>size_t\<close> (64 bits on the eBPF target), so the sum is
  formed in 64 bits and converted to the 32-bit return type.
\<close>

definition stampoffset :: "u32 \<Rightarrow> u32" where
  "stampoffset offset =
     ucast ((of_nat sizeof_ethhdr :: u64) + of_nat sizeof_iphdr + of_nat sizeof_udphdr
            + (ucast offset :: u64))"

text \<open>
  Width of the field \<^verbatim>\<open>seq\<close> of \<^verbatim>\<open>struct senderpkt\<close> and
  \<^verbatim>\<open>struct reflectorpkt\<close> (a \<^verbatim>\<open>uint32_t\<close>).
\<close>

definition sizeof_seq :: u32 where "sizeof_seq = 4"

subsection \<open>Vocabulary of the claims\<close>

text \<open>
  The UDP ports as the wire carries them (big-endian, behind a 14-byte link and a 20-byte
  network header), and the four checks \<^verbatim>\<open>for_me\<close> makes before it looks at the ports.
\<close>

definition wire_source_port :: "u8 list \<Rightarrow> u16" where
  "wire_source_port frame =
     be_word (field_bytes frame (sizeof_ethhdr + sizeof_iphdr + off_udp_source) 2)"

definition wire_dest_port :: "u8 list \<Rightarrow> u16" where
  "wire_dest_port frame =
     be_word (field_bytes frame (sizeof_ethhdr + sizeof_iphdr + off_udp_dest) 2)"

definition earlier_checks_pass :: "endian \<Rightarrow> sk_buff \<Rightarrow> bool" where
  "earlier_checks_pass e skb \<longleftrightarrow>
     protocol skb = ucast (bpf_htons e ETH_P_IP) \<and>
     sizeof_iphdr + sizeof_ethhdr \<le> length (pkt skb) \<and>
     val_of e (field_bytes (pkt skb) (sizeof_ethhdr + off_ip_protocol) 1) = IPPROTO_UDP \<and>
     sizeof_iphdr + sizeof_udphdr + sizeof_ethhdr \<le> length (pkt skb)"

text \<open>
  A frame with its two hardware addresses and its two network addresses exchanged and every
  other byte in place.
\<close>

definition addresses_swapped :: "u8 list \<Rightarrow> u8 list" where
  "addresses_swapped frame =
     take 6 (drop 6 frame) @ take 6 frame @ take 14 (drop 12 frame)
     @ take 4 (drop 30 frame) @ take 4 (drop 26 frame) @ drop 34 frame"

text \<open>
  A STAMP probe as in the end-to-end scenario of the specification: hardware address A to B,
  10.0.0.1 to 10.0.0.2, UDP with the given ports, and a payload that starts with sequence
  number 7. The context is the one a little-endian target sees for it on interface 3.
\<close>

definition probe_frame :: "u16 \<Rightarrow> u16 \<Rightarrow> u8 list" where
  "probe_frame sport dport =
     [0x02, 0, 0, 0, 0, 0x0B] @ [0x02, 0, 0, 0, 0, 0x0A] @ [0x08, 0x00]
     @ [0x45, 0, 0, 0x22, 0, 0, 0, 0, 64, 17, 0, 0] @ [10, 0, 0, 1] @ [10, 0, 0, 2]
     @ [ucast (drop_bit 8 sport), ucast sport, ucast (drop_bit 8 dport), ucast dport, 0, 14, 0, 0]
     @ [0, 0, 0, 7, 0xDE, 0xAD]"

definition probe_skb :: "u16 \<Rightarrow> u16 \<Rightarrow> sk_buff" where
  "probe_skb sport dport = \<lparr>protocol = 0x0008, ifindex = 3, pkt = probe_frame sport dport\<rparr>"

text \<open>The same context with the frame cut off in the middle of the network header.\<close>

definition short_skb :: sk_buff where
  "short_skb = \<lparr>protocol = 0x0008, ifindex = 3, pkt = take 33 (probe_frame 862 862)\<rparr>"

section \<open>Byte order\<close>

lemma mask_consts32:
  "(0xff :: u32) = mask 8" "(0xff00 :: u32) = push_bit 8 (mask 8)"
  "(0xff0000 :: u32) = push_bit 16 (mask 8)" "(0xff000000 :: u32) = push_bit 24 (mask 8)"
  by (simp_all add: mask_eq_exp_minus_1 push_bit_eq_mult)

lemma mask_consts16:
  "(0xff :: u16) = mask 8" "(0xff00 :: u16) = push_bit 8 (mask 8)"
  by (simp_all add: mask_eq_exp_minus_1 push_bit_eq_mult)

text \<open>The four bytes of a swapped word are those of the word, in reverse.\<close>

lemma swab32_byte0: "(ucast (swab32 x) :: u8) = ucast (drop_bit 24 x)"
  unfolding swab32_def mask_consts32
  by (rule bit_word_eqI) (auto simp: bit_simps)

lemma swab32_byte1: "(ucast (drop_bit 8 (swab32 x)) :: u8) = ucast (drop_bit 16 x)"
  unfolding swab32_def mask_consts32
  by (rule bit_word_eqI) (auto simp: bit_simps)

lemma swab32_byte2: "(ucast (drop_bit 16 (swab32 x)) :: u8) = ucast (drop_bit 8 x)"
  unfolding swab32_def mask_consts32
  by (rule bit_word_eqI) (auto simp: bit_simps)

lemma swab32_byte3: "(ucast (drop_bit 24 (swab32 x)) :: u8) = ucast x"
  unfolding swab32_def mask_consts32
  by (rule bit_word_eqI) (auto simp: bit_simps)

lemma le_bytes32_swab32: "le_bytes32 (swab32 x) = be_bytes32 x"
  by (simp add: le_bytes32_def be_bytes32_def swab32_byte0 swab32_byte1 swab32_byte2 swab32_byte3)

lemma swab32_swab32: "swab32 (swab32 x) = x"
proof (rule bit_word_eqI)
  fix n assume n: "n < LENGTH(32)"
  consider "n < 8" | "8 \<le> n" "n < 16" | "16 \<le> n" "n < 24" | "24 \<le> n" "n < 32"
    using n by fastforce
  then show "bit (swab32 (swab32 x)) n = bit x n"
  proof cases
    case 1 then show ?thesis
      unfolding swab32_def mask_consts32 by (auto simp: bit_simps)
  next
    case 2 then show ?thesis
      unfolding swab32_def mask_consts32 by (auto simp: bit_simps)
  next
    case 3 then show ?thesis
      unfolding swab32_def mask_consts32 by (auto simp: bit_simps)
  next
    case 4 then show ?thesis
      unfolding swab32_def mask_consts32 by (auto simp: bit_simps)
  qed
qed

lemma swab16_swab16: "swab16 (swab16 x) = x"
proof (rule bit_word_eqI)
  fix n assume n: "n < LENGTH(16)"
  consider "n < 8" | "8 \<le> n" "n < 16" using n by fastforce
  then show "bit (swab16 (swab16 x)) n = bit x n"
  proof cases
    case 1 then show ?thesis
      unfolding swab16_def mask_consts16 by (auto simp: bit_simps)
  next
    case 2 then show ?thesis
      unfolding swab16_def mask_consts16 by (auto simp: bit_simps)
  qed
qed

text \<open>
  Storing \<^verbatim>\<open>bpf_htonl(x)\<close> puts the big-endian encoding of \<open>x\<close> into memory, on
  either target.
\<close>

lemma mem_u32_htonl: "mem_u32 e (bpf_htonl e x) = be_bytes32 x"
  by (cases e) (simp_all add: mem_u32_def bpf_htonl_def le_bytes32_swab32)

lemma bpf_ntohl_htonl: "bpf_ntohl e (bpf_htonl e x) = x"
  by (cases e) (simp_all add: bpf_ntohl_def bpf_htonl_def swab32_swab32)

lemma le_word_le_bytes32: "le_word (le_bytes32 x) = x"
proof (rule bit_word_eqI)
  fix n assume n: "n < LENGTH(32)"
  consider "n < 8" | "8 \<le> n" "n < 16" | "16 \<le> n" "n < 24" | "24 \<le> n" "n < 32"
    using n by fastforce
  then show "bit (le_word (le_bytes32 x) :: u32) n = bit x n"
  proof cases
    case 1 then show ?thesis by (simp add: le_bytes32_def bit_simps)
  next
    case 2 then show ?thesis by (auto simp: le_bytes32_def bit_simps)
  next
    case 3 then show ?thesis by (auto simp: le_bytes32_def bit_simps)
  next
    case 4 then show ?thesis by (auto simp: le_bytes32_def bit_simps)
  qed
qed

lemma be_word_be_bytes32: "be_word (be_bytes32 x) = x"
  by (simp add: be_word_def be_bytes32_def le_word_le_bytes32)

lemma le_bytes32_le_word: "le_bytes32 (le_word [a, b, c, d]) = [a, b, c, d]"
proof -
  have "(ucast (le_word [a, b, c, d] :: u32) :: u8) = a"
    by (rule bit_word_eqI) (auto simp: bit_simps dest: bit_imp_le_length)
  moreover have "(ucast (drop_bit 8 (le_word [a, b, c, d] :: u32)) :: u8) = b"
    by (rule bit_word_eqI) (auto simp: bit_simps dest: bit_imp_le_length)
  moreover have "(ucast (drop_bit 16 (le_word [a, b, c, d] :: u32)) :: u8) = c"
    by (rule bit_word_eqI) (auto simp: bit_simps dest: bit_imp_le_length)
  moreover have "(ucast (drop_bit 24 (le_word [a, b, c, d] :: u32)) :: u8) = d"
    by (rule bit_word_eqI) (auto simp: bit_simps dest: bit_imp_le_length)
  ultimately show ?thesis by (simp add: le_bytes32_def)
qed

text \<open>A 32-bit scalar loaded from four bytes and stored again gives the same four bytes.\<close>

lemma mem_u32_val_of4: "mem_u32 e (val_of e [a, b, c, d]) = [a, b, c, d]"
proof (cases e)
  case Little
  then show ?thesis
    by (simp only: mem_u32_def val_of_def le_bytes32_le_word endian.case)
next
  case Big
  have "rev [a, b, c, d] = [d, c, b, a]" by simp
  then have "be_bytes32 (be_word [a, b, c, d]) = rev (le_bytes32 (le_word [d, c, b, a]))"
    by (simp only: be_bytes32_def be_word_def)
  also have "\<dots> = [a, b, c, d]"
    by (simp only: le_bytes32_le_word) simp
  finally show ?thesis using Big
    by (simp only: mem_u32_def val_of_def endian.case)
qed

lemma le_word2_swab16: "(le_word [a, b] :: u16) = swab16 (le_word [b, a])"
proof (rule bit_word_eqI)
  fix n assume n: "n < LENGTH(16)"
  consider "n < 8" | "8 \<le> n" "n < 16" using n by fastforce
  then show "bit (le_word [a, b] :: u16) n = bit (swab16 (le_word [b, a])) n"
  proof cases
    case 1 then show ?thesis
      unfolding swab16_def mask_consts16 by (auto simp: bit_simps dest: bit_imp_le_length)
  next
    case 2 then show ?thesis
      unfolding swab16_def mask_consts16 by (auto simp: bit_simps dest: bit_imp_le_length)
  qed
qed

text \<open>
  A 16-bit field loaded from the frame is \<^verbatim>\<open>bpf_ntohs\<close> of its wire value, so comparing
  the loaded field with \<^verbatim>\<open>bpf_ntohs(c)\<close> compares the wire value with \<open>c\<close>.
\<close>

lemma val_of_ntohs: "(val_of e [a, b] :: u16) = bpf_ntohs e (be_word [a, b])"
proof (cases e)
  case Little
  have "rev [a, b] = [b, a]" by simp
  then show ?thesis
    using Little le_word2_swab16 [of a b]
    by (simp only: val_of_def bpf_ntohs_def be_word_def endian.case)
next
  case Big
  then show ?thesis by (simp add: val_of_def bpf_ntohs_def)
qed

lemma bpf_ntohs_eq_iff: "bpf_ntohs e x = bpf_ntohs e y \<longleftrightarrow> x = y"
proof (cases e)
  case Little
  have "swab16 x = swab16 y \<Longrightarrow> x = y"
    by (metis swab16_swab16)
  then show ?thesis using Little by (auto simp: bpf_ntohs_def)
next
  case Big
  then show ?thesis by (simp add: bpf_ntohs_def)
qed

section \<open>The timestamp codec\<close>

subsection \<open>Conversions between word widths, read as numbers\<close>

lemma unat_ucast_64_32: "unat (ucast (x :: u64) :: u32) = unat x mod 2 ^ 32"
  by (simp add: unsigned_ucast_eq take_bit_eq_mod)

lemma unat_ucast_32_64: "unat (ucast (x :: u32) :: u64) = unat x"
proof -
  have "unat x < 2 ^ 32" using unsigned_less [of x, where 'a = nat] by simp
  then have "unat x < 18446744073709551616" by simp
  then show ?thesis by (simp add: unsigned_ucast_eq take_bit_eq_mod)
qed

lemma unat_u64_bound: "unat (t :: u64) < 18446744073709551616"
  using unsigned_less [of t, where 'a = nat] by simp

text \<open>Neither the seconds nor the fraction computation overflows 64 bits.\<close>

lemma unat_secs:
  "unat ((t :: u64) div 1000000000 + 2208988800) = unat t div 1000000000 + 2208988800"
proof -
  have "unat (t div 1000000000) = unat t div 1000000000" by (simp add: unat_div)
  moreover have "unat t div 1000000000 + 2208988800 < 2 ^ 64"
    using unat_u64_bound [of t] by simp
  ultimately show ?thesis
    by (simp add: unat_word_ariths)
qed

lemma unat_fracs:
  "unat ((t :: u64) mod 1000000000 * 1000 div 232) = unat t mod 1000000000 * 1000 div 232"
proof -
  have m: "unat (t mod 1000000000) = unat t mod 1000000000" by (simp add: unat_mod)
  have "unat t mod 1000000000 < 1000000000" by simp
  then have "unat t mod 1000000000 * 1000 < 2 ^ 64" by simp
  then have "unat (t mod 1000000000 * 1000) = unat t mod 1000000000 * 1000"
    using m by (simp add: unat_word_ariths)
  then show ?thesis by (simp add: unat_div)
qed

subsection \<open>The 232-picosecond quantisation on numbers\<close>

lemma frac_fits: "(r::nat) < 996432413 \<Longrightarrow> r * 1000 div 232 < 4294967296"
  by arith

lemma frac_back:
  "q = (r::nat) * 1000 div 232 \<Longrightarrow> q * 232 div 1000 \<le> r \<and> r \<le> q * 232 div 1000 + 1"
  by arith

lemma frac_wrap:
  "996432413 \<le> (r::nat) \<Longrightarrow> r < 1000000000 \<Longrightarrow> q = r * 1000 div 232 \<Longrightarrow>
     4294967296 \<le> q \<and> q < 8589934592 \<and> (q - 4294967296) * 232 div 1000 = r - 996432413"
  by arith

subsection \<open>What \<^verbatim>\<open>timestamp\<close> stores\<close>

lemma ntohl_secs_field:
  "bpf_ntohl e (ntp_secs (snd (timestamp e t))) = ucast (t div 1000000000 + 2208988800)"
  by (simp add: timestamp_def bpf_ntohl_htonl)

lemma ntohl_fracs_field:
  "bpf_ntohl e (ntp_fracs (snd (timestamp e t))) = ucast (t mod 1000000000 * 1000 div 232)"
  by (simp add: timestamp_def bpf_ntohl_htonl)

lemma unat_widen_secs:
  "unat (ucast (ucast ((t :: u64) div 1000000000 + 2208988800) :: u32) :: u64) =
     (unat t div 1000000000 + 2208988800) mod 4294967296"
  by (simp add: unat_ucast_32_64 unat_ucast_64_32 unat_secs)

lemma unat_widen_fracs:
  "unat (ucast (ucast ((t :: u64) mod 1000000000 * 1000 div 232) :: u32) :: u64) =
     (unat t mod 1000000000 * 1000 div 232) mod 4294967296"
  by (simp add: unat_ucast_32_64 unat_ucast_64_32 unat_fracs)

lemma unat_ns_back:
  assumes "unat (f :: u64) < 4294967296"
  shows "unat (f * 232 div 1000) = unat f * 232 div 1000"
proof -
  have "unat f * 232 < 2 ^ 64" using assms by simp
  then have "unat (f * 232) = unat f * 232"
    by (simp add: unat_word_ariths)
  then show ?thesis by (simp add: unat_div)
qed

text \<open>
  C3. For every 64-bit clock reading \<open>t\<close>, \<^verbatim>\<open>timestamp\<close> returns 0 and leaves in
  memory, in network byte order, first the low 32 bits of \<open>t div 10^9 + 2208988800\<close> and then
  the low 32 bits of \<open>(t mod 10^9) * 1000 div 232\<close>. Both numbers are the exact ones: the
  64-bit arithmetic of the function does not overflow. When the seconds fit in 32 bits the
  truncation of the seconds field is the identity.
\<close>

theorem timestamp_stores:
  "fst (timestamp e t) = 0 \<and>
   ntp_ts_bytes e (snd (timestamp e t)) =
     be_bytes32 (of_nat (unat t div 1000000000 + 2208988800)) @
     be_bytes32 (of_nat (unat t mod 1000000000 * 1000 div 232)) \<and>
   unat (be_word (mem_u32 e (ntp_secs (snd (timestamp e t)))) :: u32) =
     (unat t div 1000000000 + 2208988800) mod 2 ^ 32 \<and>
   unat (be_word (mem_u32 e (ntp_fracs (snd (timestamp e t)))) :: u32) =
     (unat t mod 1000000000 * 1000 div 232) mod 2 ^ 32"
proof -
  have s: "(ucast (t div 1000000000 + 2208988800) :: u32) =
             of_nat (unat t div 1000000000 + 2208988800)"
    using unat_secs [of t] by (metis of_nat_unat)
  have f: "(ucast (t mod 1000000000 * 1000 div 232) :: u32) =
             of_nat (unat t mod 1000000000 * 1000 div 232)"
    using unat_fracs [of t] by (metis of_nat_unat)
  have ms: "mem_u32 e (ntp_secs (snd (timestamp e t))) =
              be_bytes32 (of_nat (unat t div 1000000000 + 2208988800))"
    using s by (simp add: timestamp_def mem_u32_htonl)
  have mf: "mem_u32 e (ntp_fracs (snd (timestamp e t))) =
              be_bytes32 (of_nat (unat t mod 1000000000 * 1000 div 232))"
    using f by (simp add: timestamp_def mem_u32_htonl)
  have r: "fst (timestamp e t) = 0" by (simp add: timestamp_def)
  have us: "unat (of_nat (unat t div 1000000000 + 2208988800) :: u32) =
              (unat t div 1000000000 + 2208988800) mod 2 ^ 32"
    by (simp only: unat_of_nat) simp
  have uf: "unat (of_nat (unat t mod 1000000000 * 1000 div 232) :: u32) =
              (unat t mod 1000000000 * 1000 div 232) mod 2 ^ 32"
    by (simp only: unat_of_nat) simp
  show ?thesis
    using r us uf by (simp only: ntp_ts_bytes_def ms mf be_word_be_bytes32)
qed

subsection \<open>Decoding what was encoded\<close>

text \<open>The round trip as a 64-bit word, in terms of the numbers involved.\<close>

lemma untimestamp_timestamp:
  "untimestamp e (snd (timestamp e t)) =
     (of_nat ((unat t div 1000000000 + 2208988800) mod 4294967296) - 2208988800) * 1000000000
     + of_nat ((unat t mod 1000000000 * 1000 div 232) mod 4294967296 * 232 div 1000)"
proof -
  let ?s = "(ucast (ucast (t div 1000000000 + 2208988800) :: u32) :: u64)"
  let ?f = "(ucast (ucast (t mod 1000000000 * 1000 div 232) :: u32) :: u64)"
  have u: "untimestamp e (snd (timestamp e t)) = (?s - 2208988800) * 1000000000 + ?f * 232 div 1000"
    by (simp add: untimestamp_def ntohl_secs_field ntohl_fracs_field Let_def)
  have s: "?s = of_nat ((unat t div 1000000000 + 2208988800) mod 4294967296)"
    using unat_widen_secs [of t] by (metis of_nat_unat ucast_id)
  have "unat ?f < 4294967296"
    by (simp add: unat_widen_fracs)
  then have "unat (?f * 232 div 1000) = unat ?f * 232 div 1000"
    by (rule unat_ns_back)
  then have "unat (?f * 232 div 1000) = (unat t mod 1000000000 * 1000 div 232) mod 4294967296 * 232 div 1000"
    by (simp only: unat_widen_fracs)
  then have f: "?f * 232 div 1000 = of_nat ((unat t mod 1000000000 * 1000 div 232) mod 4294967296 * 232 div 1000)"
    by (metis of_nat_unat ucast_id)
  show ?thesis by (simp only: u s f)
qed

lemma roundtrip_algebra:
  "((a :: u64) * 1000000000 + (b + 996432413))
     - (((a + 2208988800 - kk * 4294967296) - 2208988800) * 1000000000 + b)
   = kk * 4294967296000000000 + 996432413"
  by (simp add: algebra_simps)

lemma split_clock: "(t :: u64) = of_nat (unat t div 1000000000) * 1000000000 + of_nat (unat t mod 1000000000)"
proof -
  have "unat t = unat t div 1000000000 * 1000000000 + unat t mod 1000000000" by simp
  then have "(of_nat (unat t) :: u64) = of_nat (unat t div 1000000000 * 1000000000 + unat t mod 1000000000)"
    by (rule arg_cong)
  also have "\<dots> = of_nat (unat t div 1000000000) * 1000000000 + of_nat (unat t mod 1000000000)"
    by (simp only: of_nat_add of_nat_mult of_nat_numeral)
  finally show ?thesis by (simp only: of_nat_unat ucast_id)
qed

lemma of_nat_sub_const:
  assumes "c \<le> (r::nat)"
  shows "(of_nat r :: u64) = of_nat (r - c) + of_nat c"
proof -
  have "r = (r - c) + c" using assms by simp
  then have "(of_nat r :: u64) = of_nat ((r - c) + c)" by (rule arg_cong)
  then show ?thesis by (simp only: of_nat_add)
qed

lemma of_nat_mod_2p32:
  "(of_nat (S mod 4294967296) :: u64) = of_nat S - of_nat (S div 4294967296) * 4294967296"
proof -
  have "S = S div 4294967296 * 4294967296 + S mod 4294967296" by simp
  then have "(of_nat S :: u64) = of_nat (S div 4294967296 * 4294967296 + S mod 4294967296)"
    by (rule arg_cong)
  then have "(of_nat S :: u64) = of_nat (S div 4294967296) * 4294967296 + of_nat (S mod 4294967296)"
    by (simp only: of_nat_add of_nat_mult of_nat_numeral)
  then show ?thesis by (simp only: add_diff_cancel_left')
qed


lemma mod_once: "m \<le> (q::nat) \<Longrightarrow> q < 2 * m \<Longrightarrow> q mod m = q - m"
proof -
  assume a: "m \<le> q" and b: "q < 2 * m"
  have "q mod m = (q - m) mod m" using a by (rule le_mod_geq)
  moreover have "q - m < m" using a b by linarith
  ultimately show ?thesis by (simp only: mod_less)
qed

lemma mod_once_2p32:
  "4294967296 \<le> (q::nat) \<Longrightarrow> q < 8589934592 \<Longrightarrow> q mod 4294967296 = q - 4294967296"
  using mod_once [of 4294967296 q] by linarith

lemma roundtrip_wrapped:
  fixes t :: u64
  assumes r: "996432413 \<le> unat t mod 1000000000"
  shows "t - untimestamp e (snd (timestamp e t)) =
           of_nat ((unat t div 1000000000 + 2208988800) div 4294967296) * 4294967296000000000
           + 996432413"
proof -
  let ?secs = "unat t div 1000000000"
  let ?r = "unat t mod 1000000000"
  let ?F = "?r * 1000 div 232"
  have rlt: "?r < 1000000000" by simp
  have w: "4294967296 \<le> ?F \<and> ?F < 8589934592 \<and> (?F - 4294967296) * 232 div 1000 = ?r - 996432413"
    using frac_wrap [OF r rlt refl] .
  have "?F mod 4294967296 = ?F - 4294967296"
    using w by (intro mod_once_2p32) (rule conjunct1, assumption, rule conjunct1, rule conjunct2, assumption)
  then have ns: "?F mod 4294967296 * 232 div 1000 = ?r - 996432413"
    using w by (simp only:)
  have r_eq: "(of_nat ?r :: u64) = of_nat (?r - 996432413) + 996432413"
    using of_nat_sub_const [OF r] by (simp only: of_nat_numeral)
  have S_eq: "(of_nat ((?secs + 2208988800) mod 4294967296) :: u64) =
          of_nat ?secs + 2208988800 - of_nat ((?secs + 2208988800) div 4294967296) * 4294967296"
    using of_nat_mod_2p32 [of "?secs + 2208988800"] by (simp only: of_nat_add of_nat_numeral)
  have res: "untimestamp e (snd (timestamp e t)) =
     (of_nat ?secs + 2208988800 - of_nat ((?secs + 2208988800) div 4294967296) * 4294967296 - 2208988800) * 1000000000
     + of_nat (?r - 996432413)"
    by (simp only: untimestamp_timestamp ns S_eq)
  have "of_nat ?secs * 1000000000 + of_nat ?r = (t :: u64)"
    by (rule split_clock [symmetric])
  then have t_eq: "of_nat ?secs * 1000000000 + (of_nat (?r - 996432413) + 996432413) = t"
    by (simp only: r_eq)
  have "t - untimestamp e (snd (timestamp e t)) =
      (of_nat ?secs * 1000000000 + (of_nat (?r - 996432413) + 996432413))
      - ((of_nat ?secs + 2208988800 - of_nat ((?secs + 2208988800) div 4294967296) * 4294967296 - 2208988800) * 1000000000
     + of_nat (?r - 996432413))"
    by (simp only: t_eq res)
  then show ?thesis by (simp only: roundtrip_algebra)
qed


lemma wraps_bound:
  "(n::nat) < 18446744073709551616 \<Longrightarrow> (n div 1000000000 + 2208988800) div 4294967296 \<le> 4"
  by arith

lemma unat_sub_swap:
  fixes x y :: u64
  assumes "unat (x - y) = d" and "0 < d"
  shows "unat (y - x) = 18446744073709551616 - d"
proof -
  have bx: "unat x < 18446744073709551616" by (rule unat_u64_bound)
  have by': "unat y < 18446744073709551616" by (rule unat_u64_bound)
  have 1: "unat (x - y) = (if unat y \<le> unat x then unat x - unat y
                           else unat x + 18446744073709551616 - unat y)"
    using unat_sub_if' [of x y] by simp
  have 2: "unat (y - x) = (if unat x \<le> unat y then unat y - unat x
                           else unat y + 18446744073709551616 - unat x)"
    using unat_sub_if' [of y x] by simp
  show ?thesis
    using assms bx by' unfolding 1 2 by (auto split: if_splits)
qed

lemma roundtrip_wrapped_unat:
  fixes t :: u64
  assumes r: "996432413 \<le> unat t mod 1000000000"
  shows "unat (t - untimestamp e (snd (timestamp e t))) =
           (unat t div 1000000000 + 2208988800) div 4294967296 * 4294967296000000000 + 996432413"
proof -
  let ?k = "(unat t div 1000000000 + 2208988800) div 4294967296"
  have k: "?k \<le> 4" using unat_u64_bound [of t] by (rule wraps_bound)
  then have lt: "?k * 4294967296000000000 + 996432413 < 18446744073709551616" by linarith
  have "t - untimestamp e (snd (timestamp e t)) = of_nat ?k * 4294967296000000000 + 996432413"
    using r by (rule roundtrip_wrapped)
  also have "\<dots> = of_nat (?k * 4294967296000000000 + 996432413)"
    by (simp only: of_nat_add of_nat_mult of_nat_numeral)
  finally have "unat (t - untimestamp e (snd (timestamp e t))) =
      (?k * 4294967296000000000 + 996432413) mod 18446744073709551616"
    by (simp only: unat_of_nat) simp
  then show ?thesis using lt by (simp only: mod_less)
qed

text \<open>
  While the sub-second part stays below 996432413 ns and the seconds fit in 32 bits, decoding
  an encoded clock reading loses at most one nanosecond.
\<close>

lemma roundtrip_in_range:
  fixes t :: u64
  assumes r: "unat t mod 1000000000 < 996432413"
    and s: "unat t div 1000000000 + 2208988800 < 4294967296"
  shows "unat (untimestamp e (snd (timestamp e t))) \<le> unat t \<and>
         unat t \<le> unat (untimestamp e (snd (timestamp e t))) + 1"
proof -
  let ?secs = "unat t div 1000000000"
  let ?r = "unat t mod 1000000000"
  let ?F = "?r * 1000 div 232"
  let ?ns = "?F * 232 div 1000"
  have F: "?F mod 4294967296 = ?F"
    using frac_fits [OF r] by (rule mod_less)
  have S: "(?secs + 2208988800) mod 4294967296 = ?secs + 2208988800"
    using s by (rule mod_less)
  have ns: "?ns \<le> ?r \<and> ?r \<le> ?ns + 1"
    using frac_back [OF refl] .
  have "untimestamp e (snd (timestamp e t)) =
          (of_nat (?secs + 2208988800) - 2208988800) * 1000000000 + of_nat ?ns"
    by (simp only: untimestamp_timestamp F S)
  also have "\<dots> = of_nat ?secs * 1000000000 + of_nat ?ns"
    by (simp only: of_nat_add of_nat_numeral add_diff_cancel_right')
  also have "\<dots> = of_nat (?secs * 1000000000 + ?ns)"
    by (simp only: of_nat_add of_nat_mult of_nat_numeral)
  finally have res: "unat (untimestamp e (snd (timestamp e t))) =
      (?secs * 1000000000 + ?ns) mod 18446744073709551616"
    by (simp only: unat_of_nat) simp
  have t: "unat t = ?secs * 1000000000 + ?r" by simp
  have "?secs * 1000000000 + ?ns \<le> unat t" using ns t by linarith
  then have "?secs * 1000000000 + ?ns < 18446744073709551616"
    using unat_u64_bound [of t] by linarith
  then have "unat (untimestamp e (snd (timestamp e t))) = ?secs * 1000000000 + ?ns"
    using res by (simp only: mod_less)
  then show ?thesis using ns t by linarith
qed

text \<open>
  C2. The claim is that the round trip is within 232 ns for every clock reading below
  \<open>2 ^ 63\<close> whose seconds fit in 32 bits. At \<open>t = 1700000000999999999\<close> (a reading
  in November 2023, one nanosecond before a full second) \<^verbatim>\<open>untimestamp\<close> returns
  1700000000003567586 on either target: the round trip is off by 996432413 ns.
\<close>

theorem roundtrip_off_by_996_ms:
  "untimestamp Little (snd (timestamp Little 1700000000999999999)) = 1700000000003567586 \<and>
   untimestamp Big (snd (timestamp Big 1700000000999999999)) = 1700000000003567586 \<and>
   unat (1700000000999999999 :: u64) < 2 ^ 63 \<and>
   unat (1700000000999999999 :: u64) div 1000000000 + 2208988800 < 2 ^ 32 \<and>
   unat (1700000000999999999 - 1700000000003567586 :: u64) = 996432413 \<and>
   \<not> unat (1700000000999999999 - 1700000000003567586 :: u64) \<le> 232"
  by (simp add: untimestamp_def timestamp_def bpf_ntohl_def bpf_htonl_def swab32_def)

lemma stored_fracs:
  "unat (be_word (mem_u32 e (ntp_fracs (snd (timestamp e t)))) :: u32) =
     (unat t mod 1000000000 * 1000 div 232) mod 4294967296"
proof -
  have "mem_u32 e (ntp_fracs (snd (timestamp e t))) =
          be_bytes32 (ucast (t mod 1000000000 * 1000 div 232))"
    by (simp add: timestamp_def mem_u32_htonl)
  then have "(be_word (mem_u32 e (ntp_fracs (snd (timestamp e t)))) :: u32) =
          ucast (t mod 1000000000 * 1000 div 232)"
    by (simp only: be_word_be_bytes32)
  then show ?thesis
    by (simp only: unat_ucast_64_32 unat_fracs) simp
qed

text \<open>
  C9. The fraction field holds the low 32 bits of the 64-bit quotient
  \<open>(t mod 10^9) * 1000 div 232\<close>. Whenever the sub-second part of \<open>t\<close> is at least
  996432413 ns that quotient is above \<open>2^32 - 1\<close>, the stored fraction is the quotient
  less \<open>2^32\<close>, and the decoded time differs from \<open>t\<close>, in 64-bit arithmetic, by
  996432413 ns plus \<open>2^32\<close> seconds for each wrap of the seconds field: in either
  direction by at least 996432413 ns, and by exactly that when the seconds fit in 32 bits.
\<close>

theorem timestamp_fraction_wraps:
  "unat (be_word (mem_u32 e (ntp_fracs (snd (timestamp e t)))) :: u32) =
     (unat t mod 1000000000 * 1000 div 232) mod 4294967296 \<and>
   (996432413 \<le> unat t mod 1000000000 \<longrightarrow>
      4294967295 < unat t mod 1000000000 * 1000 div 232 \<and>
      (unat t mod 1000000000 * 1000 div 232) mod 4294967296 =
         unat t mod 1000000000 * 1000 div 232 - 4294967296 \<and>
      unat (t - untimestamp e (snd (timestamp e t))) =
         (unat t div 1000000000 + 2208988800) div 4294967296 * 4294967296000000000 + 996432413 \<and>
      996432413 \<le> unat (untimestamp e (snd (timestamp e t)) - t) \<and>
      (unat t div 1000000000 + 2208988800 < 4294967296 \<longrightarrow>
         unat (untimestamp e (snd (timestamp e t))) + 996432413 = unat t))"
proof (intro conjI impI)
  show "unat (be_word (mem_u32 e (ntp_fracs (snd (timestamp e t)))) :: u32) =
     (unat t mod 1000000000 * 1000 div 232) mod 4294967296"
    by (rule stored_fracs)
next
  assume r: "996432413 \<le> unat t mod 1000000000"
  let ?F = "unat t mod 1000000000 * 1000 div 232"
  let ?k = "(unat t div 1000000000 + 2208988800) div 4294967296"
  let ?res = "untimestamp e (snd (timestamp e t))"
  have rlt: "unat t mod 1000000000 < 1000000000" by simp
  have w: "4294967296 \<le> ?F \<and> ?F < 8589934592 \<and>
           (?F - 4294967296) * 232 div 1000 = unat t mod 1000000000 - 996432413"
    using frac_wrap [OF r rlt refl] .
  show "4294967295 < ?F" using w by linarith
  show "?F mod 4294967296 = ?F - 4294967296"
    using w by (intro mod_once_2p32) linarith+
  show d: "unat (t - ?res) = ?k * 4294967296000000000 + 996432413"
    using r by (rule roundtrip_wrapped_unat)
  have k: "?k \<le> 4" using unat_u64_bound [of t] by (rule wraps_bound)
  have pos: "0 < ?k * 4294967296000000000 + 996432413" by simp
  have "unat (?res - t) = 18446744073709551616 - (?k * 4294967296000000000 + 996432413)"
    using d pos by (rule unat_sub_swap)
  then show "996432413 \<le> unat (?res - t)" using k by linarith
next
  assume r: "996432413 \<le> unat t mod 1000000000"
    and s: "unat t div 1000000000 + 2208988800 < 4294967296"
  let ?res = "untimestamp e (snd (timestamp e t))"
  have "(unat t div 1000000000 + 2208988800) div 4294967296 = 0"
    using s by (rule div_less)
  then have d: "unat (t - ?res) = 996432413"
    using roundtrip_wrapped_unat [OF r, of e] by simp
  have ge: "996432413 \<le> unat t"
    using r mod_less_eq_dividend [of "unat t" 1000000000] by linarith
  have b: "unat ?res < 18446744073709551616" by (rule unat_u64_bound)
  have "unat (t - ?res) = (if unat ?res \<le> unat t then unat t - unat ?res
                           else unat t + 18446744073709551616 - unat ?res)"
    using unat_sub_if' [of t ?res] by simp
  then show "unat ?res + 996432413 = unat t"
    using d ge b by (auto split: if_splits)
qed

theorem timestamp_fraction_wraps_witness:
  "996432413 \<le> unat (999999999 :: u64) mod 1000000000 \<and>
   unat (999999999 :: u64) div 1000000000 + 2208988800 < 4294967296 \<and>
   unat (untimestamp Little (snd (timestamp Little 999999999))) + 996432413 = unat (999999999 :: u64)"
  using timestamp_fraction_wraps [of Little 999999999] by simp

section \<open>The frame classifier\<close>

lemmas hdr_consts = sizeof_ethhdr_def sizeof_iphdr_def sizeof_udphdr_def off_h_dest_def
  off_h_source_def off_ip_protocol_def off_saddr_def off_daddr_def off_udp_source_def
  off_udp_dest_def

lemmas probe_eval = probe_skb_def probe_frame_def short_skb_def hdr_consts ETH_P_IP_def
  IPPROTO_UDP_def bpf_htons_def bpf_ntohs_def swab16_def val_of_def be_word_def field_bytes_def
  TCX_PASS_def

lemma field_bytes2:
  assumes "off + 2 \<le> length xs"
  shows "\<exists>a b. field_bytes xs off 2 = [a, b]"
proof -
  have "length (field_bytes xs off 2) = 2"
    using assms by (simp add: field_bytes_def)
  then show ?thesis
    by (auto simp: length_Suc_conv numeral_2_eq_2)
qed

lemma port_compare:
  assumes "off + 2 \<le> length xs"
  shows "((val_of e (field_bytes xs off 2) :: u16) = bpf_ntohs e c) \<longleftrightarrow>
         ((be_word (field_bytes xs off 2) :: u16) = c)"
proof -
  obtain a b where ab: "field_bytes xs off 2 = [a, b]"
    using field_bytes2 [OF assms] by blast
  show ?thesis
    unfolding ab by (simp only: val_of_ntohs bpf_ntohs_eq_iff)
qed

lemma for_me_after_checks:
  assumes "earlier_checks_pass e skb"
  shows "for_me e skb =
           (if wire_dest_port (pkt skb) \<noteq> 862 then TCX_PASS
            else if wire_source_port (pkt skb) \<noteq> 862 then TCX_PASS else 1)"
proof -
  have len: "42 \<le> length (pkt skb)"
    using assms by (simp add: earlier_checks_pass_def hdr_consts)
  then have d: "((val_of e (field_bytes (pkt skb) 36 2) :: u16) = bpf_ntohs e 862) \<longleftrightarrow>
                wire_dest_port (pkt skb) = 862"
    using port_compare [of 36 "pkt skb" e 862] by (simp add: wire_dest_port_def hdr_consts)
  have s: "((val_of e (field_bytes (pkt skb) 34 2) :: u16) = bpf_ntohs e 862) \<longleftrightarrow>
                wire_source_port (pkt skb) = 862"
    using len port_compare [of 34 "pkt skb" e 862] by (simp add: wire_source_port_def hdr_consts)
  have "protocol skb = ucast (bpf_htons e ETH_P_IP)"
    and "val_of e (field_bytes (pkt skb) 23 1) = IPPROTO_UDP"
    using assms by (simp_all add: earlier_checks_pass_def hdr_consts)
  then show ?thesis
    using len d s by (simp add: for_me_def for_me_reads_def hdr_consts Let_def)
qed

text \<open>
  C1. The claim is that a frame that has passed the four earlier checks is rejected exactly
  when neither port is 862, so that one matching port is enough to be accepted. The code
  rejects when the destination port differs from 862 or the source port does. What holds: such
  a frame is rejected exactly when at least one of its two ports, decoded from the wire,
  differs from 862, and accepted exactly when both are 862. This holds on either target.
\<close>

theorem for_me_ports:
  "earlier_checks_pass e skb \<Longrightarrow>
     (for_me e skb = TCX_PASS \<longleftrightarrow>
        wire_source_port (pkt skb) \<noteq> 862 \<or> wire_dest_port (pkt skb) \<noteq> 862) \<and>
     (for_me e skb = 1 \<longleftrightarrow>
        wire_source_port (pkt skb) = 862 \<and> wire_dest_port (pkt skb) = 862)"
  by (simp add: for_me_after_checks TCX_PASS_def)

theorem for_me_ports_witness:
  "earlier_checks_pass Little (probe_skb 862 862) \<and>
   wire_source_port (pkt (probe_skb 862 862)) = 862 \<and>
   wire_dest_port (pkt (probe_skb 862 862)) = 862 \<and>
   for_me Little (probe_skb 862 862) = 1"
proof -
  have h: "earlier_checks_pass Little (probe_skb 862 862)"
    by (simp add: earlier_checks_pass_def probe_eval)
  have p: "wire_source_port (pkt (probe_skb 862 862)) = 862 \<and>
           wire_dest_port (pkt (probe_skb 862 862)) = 862"
    by (simp add: wire_source_port_def wire_dest_port_def probe_eval)
  show ?thesis using h p for_me_ports [OF h] by simp
qed

text \<open>
  The claim as stated fails on a probe from port 862 to port 5000: it passes the earlier
  checks, one of its ports is 862, and \<^verbatim>\<open>for_me\<close> rejects it.
\<close>

theorem for_me_one_port_rejected:
  "earlier_checks_pass Little (probe_skb 862 5000) \<and>
   wire_source_port (pkt (probe_skb 862 5000)) = 862 \<and>
   wire_dest_port (pkt (probe_skb 862 5000)) = 5000 \<and>
   for_me Little (probe_skb 862 5000) = TCX_PASS \<and>
   \<not> (for_me Little (probe_skb 862 5000) = TCX_PASS \<longleftrightarrow>
        wire_source_port (pkt (probe_skb 862 5000)) \<noteq> 862 \<and>
        wire_dest_port (pkt (probe_skb 862 5000)) \<noteq> 862)"
  by (simp add: earlier_checks_pass_def wire_source_port_def wire_dest_port_def
      for_me_def for_me_reads_def probe_eval)

text \<open>
  C8. A frame shorter than a link header plus a network header is rejected whatever it
  contains, and no byte of the frame has been read when the function returns: before the
  length check only fields of the context are read.
\<close>

theorem for_me_short:
  "length (pkt skb) < sizeof_ethhdr + sizeof_iphdr \<Longrightarrow>
     for_me e skb = TCX_PASS \<and> snd (for_me_reads e skb) = []"
  by (simp add: for_me_def for_me_reads_def hdr_consts Let_def)

theorem for_me_short_witness:
  "length (pkt short_skb) < sizeof_ethhdr + sizeof_iphdr \<and>
   protocol short_skb = ucast (bpf_htons Little ETH_P_IP) \<and>
   for_me Little short_skb = TCX_PASS \<and> snd (for_me_reads Little short_skb) = []"
proof -
  have h: "length (pkt short_skb) < sizeof_ethhdr + sizeof_iphdr"
    by (simp add: probe_eval)
  have p: "protocol short_skb = ucast (bpf_htons Little ETH_P_IP)"
    by (simp add: probe_eval)
  show ?thesis using h p for_me_short [OF h, of Little] by simp
qed

text \<open>Every frame access of the classifier lies inside the frame.\<close>

lemma for_me_reads_in_bounds:
  "(off, n) \<in> set (snd (for_me_reads e skb)) \<Longrightarrow> off + n \<le> length (pkt skb)"
  by (auto simp: for_me_reads_def hdr_consts Let_def split: if_splits)

section \<open>The turnaround\<close>

lemma field_bytes4:
  assumes "off + 4 \<le> length xs"
  shows "\<exists>a b c d. field_bytes xs off 4 = [a, b, c, d]"
proof -
  have "length (field_bytes xs off 4) = Suc (Suc (Suc (Suc 0)))"
    using assms by (simp add: field_bytes_def)
  then show ?thesis
    by (auto simp: length_Suc_conv)
qed

text \<open>Loading a 32-bit field and storing the value again writes the field's own bytes.\<close>

lemma mem_u32_field:
  assumes "off + 4 \<le> length xs"
  shows "mem_u32 e (val_of e (field_bytes xs off 4)) = take 4 (drop off xs)"
proof -
  obtain a b c d where f: "field_bytes xs off 4 = [a, b, c, d]"
    using field_bytes4 [OF assms] by blast
  have "mem_u32 e (val_of e (field_bytes xs off 4)) = field_bytes xs off 4"
    unfolding f by (rule mem_u32_val_of4)
  then show ?thesis by (simp only: field_bytes_def)
qed

lemma take_drop_glue: "take n (drop k xs) @ drop (k + n) xs = drop k xs"
proof -
  have "take n (drop k xs) @ drop n (drop k xs) = drop k xs"
    by (rule append_take_drop_id)
  then show ?thesis by (simp only: drop_drop add.commute [of k n])
qed

text \<open>A frame cut at the boundaries of its address fields.\<close>

lemma frame_cut:
  "take 6 xs @ take 6 (drop 6 xs) @ take 14 (drop 12 xs) @ take 4 (drop 26 xs)
     @ take 4 (drop 30 xs) @ drop 34 xs = xs"
proof -
  have g1: "take 4 (drop 30 xs) @ drop 34 xs = drop 30 xs"
    using take_drop_glue [of 4 30 xs] by simp
  have g2: "take 4 (drop 26 xs) @ drop 30 xs = drop 26 xs"
    using take_drop_glue [of 4 26 xs] by simp
  have g3: "take 14 (drop 12 xs) @ drop 26 xs = drop 12 xs"
    using take_drop_glue [of 14 12 xs] by simp
  have g4: "take 6 (drop 6 xs) @ drop 12 xs = drop 6 xs"
    using take_drop_glue [of 6 6 xs] by simp
  show ?thesis by (simp only: g1 g2 g3 g4 append_take_drop_id)
qed

lemma frame_segments:
  assumes "34 \<le> length xs"
  obtains A B C D E R where "xs = A @ B @ C @ D @ E @ R" "length A = 6" "length B = 6"
    "length C = 14" "length D = 4" "length E = 4"
proof
  show "xs = take 6 xs @ take 6 (drop 6 xs) @ take 14 (drop 12 xs) @ take 4 (drop 26 xs)
     @ take 4 (drop 30 xs) @ drop 34 xs"
    by (rule frame_cut [symmetric])
qed (use assms in simp_all)

lemma addresses_swapped_segments:
  assumes "length A = 6" "length B = 6" "length C = 14" "length D = 4" "length E = 4"
  shows "addresses_swapped (A @ B @ C @ D @ E @ R) = B @ A @ C @ E @ D @ R"
  using assms by (simp add: addresses_swapped_def)

lemma store_segments:
  assumes "length A = 6" "length B = 6" "length C = 14" "length D = 4" "length E = 4"
  shows "bpf_skb_store_bytes (A @ B @ C @ D @ E @ R) 26 E = A @ B @ C @ E @ E @ R"
    and "bpf_skb_store_bytes (A @ B @ C @ E @ E @ R) 30 D = A @ B @ C @ E @ D @ R"
    and "bpf_skb_load_bytes (A @ B @ C @ E @ D @ R) 6 6 = B"
    and "bpf_skb_load_bytes (A @ B @ C @ E @ D @ R) 0 6 = A"
    and "bpf_skb_store_bytes (A @ B @ C @ E @ D @ R) 6 A = A @ A @ C @ E @ D @ R"
    and "bpf_skb_store_bytes (A @ A @ C @ E @ D @ R) 0 B = B @ A @ C @ E @ D @ R"
  using assms by (simp_all add: bpf_skb_store_bytes_def bpf_skb_load_bytes_def)


lemma bpf_redirect_no_flags: "bpf_redirect i 0 = (TC_ACT_REDIRECT, Some i)"
  by (simp add: bpf_redirect_def)

lemma pkt_turnaround_long:
  assumes "sizeof_ethhdr + sizeof_iphdr \<le> length (pkt skb)"
  shows "pkt_turnaround e skb =
           \<lparr>out_skb = skb\<lparr>pkt := addresses_swapped (pkt skb)\<rparr>, ret = TC_ACT_REDIRECT,
            tgt_index = Some (ifindex skb), ret_at = Ret_redirect\<rparr>"
proof -
  have len: "34 \<le> length (pkt skb)" using assms by (simp add: hdr_consts)
  then obtain A B C D E R where xs: "pkt skb = A @ B @ C @ D @ E @ R"
    and l: "length A = 6" "length B = 6" "length C = 14" "length D = 4" "length E = 4"
    by (rule frame_segments)
  have src: "mem_u32 e (val_of e (field_bytes (A @ B @ C @ D @ E @ R) 26 4)) = D"
    using l mem_u32_field [of 26 "A @ B @ C @ D @ E @ R" e] by simp
  have dst: "mem_u32 e (val_of e (field_bytes (A @ B @ C @ D @ E @ R) 30 4)) = E"
    using l mem_u32_field [of 30 "A @ B @ C @ D @ E @ R" e] by simp
  have n1: "\<not> 34 > length (A @ B @ C @ D @ E @ R)" using l by simp
  have n2: "\<not> 14 > length (A @ B @ C @ D @ E @ R)" using l by simp
  show ?thesis
    unfolding pkt_turnaround_def Let_def hdr_consts xs
    using n1 n2
    by (simp only: src dst store_segments [OF l] addresses_swapped_segments [OF l]
        bpf_redirect_no_flags fst_conv snd_conv semiring_norm)
qed

lemma pkt_turnaround_short:
  assumes "length (pkt skb) < sizeof_ethhdr + sizeof_iphdr"
  shows "pkt_turnaround e skb =
           \<lparr>out_skb = skb, ret = TCX_PASS, tgt_index = None, ret_at = Ret_hdr_check\<rparr>"
  using assms by (simp add: pkt_turnaround_def Let_def)


lemma addresses_swapped_twice:
  assumes "34 \<le> length xs"
  shows "addresses_swapped (addresses_swapped xs) = xs"
proof -
  obtain A B C D E R where xs: "xs = A @ B @ C @ D @ E @ R"
    and l: "length A = 6" "length B = 6" "length C = 14" "length D = 4" "length E = 4"
    using assms by (rule frame_segments)
  have "addresses_swapped (B @ A @ C @ E @ D @ R) = A @ B @ C @ D @ E @ R"
    using l by (intro addresses_swapped_segments)
  then show ?thesis
    unfolding xs by (simp only: addresses_swapped_segments [OF l])
qed

lemma length_addresses_swapped:
  assumes "34 \<le> length xs"
  shows "length (addresses_swapped xs) = length xs"
  using assms by (simp add: addresses_swapped_def)

lemma addresses_swapped_fields:
  assumes "34 \<le> length xs"
  shows "field_bytes (addresses_swapped xs) 0 6 = field_bytes xs 6 6"
    and "field_bytes (addresses_swapped xs) 6 6 = field_bytes xs 0 6"
    and "field_bytes (addresses_swapped xs) 26 4 = field_bytes xs 30 4"
    and "field_bytes (addresses_swapped xs) 30 4 = field_bytes xs 26 4"
    and "field_bytes (addresses_swapped xs) 12 14 = field_bytes xs 12 14"
    and "drop 34 (addresses_swapped xs) = drop 34 xs"
proof -
  obtain A B C D E R where xs: "xs = A @ B @ C @ D @ E @ R"
    and l: "length A = 6" "length B = 6" "length C = 14" "length D = 4" "length E = 4"
    using assms by (rule frame_segments)
  have sw: "addresses_swapped xs = B @ A @ C @ E @ D @ R"
    unfolding xs using l by (rule addresses_swapped_segments)
  show "field_bytes (addresses_swapped xs) 0 6 = field_bytes xs 6 6"
    and "field_bytes (addresses_swapped xs) 6 6 = field_bytes xs 0 6"
    and "field_bytes (addresses_swapped xs) 26 4 = field_bytes xs 30 4"
    and "field_bytes (addresses_swapped xs) 30 4 = field_bytes xs 26 4"
    and "field_bytes (addresses_swapped xs) 12 14 = field_bytes xs 12 14"
    and "drop 34 (addresses_swapped xs) = drop 34 xs"
    unfolding sw unfolding xs using l by (simp_all add: field_bytes_def)
qed

lemma addresses_swapped_nth:
  assumes "34 \<le> length xs" and "i < length xs" and "(12 \<le> i \<and> i < 26) \<or> 34 \<le> i"
  shows "addresses_swapped xs ! i = xs ! i"
proof -
  obtain A B C D E R where xs: "xs = A @ B @ C @ D @ E @ R"
    and l: "length A = 6" "length B = 6" "length C = 14" "length D = 4" "length E = 4"
    using assms(1) by (rule frame_segments)
  have sw: "addresses_swapped xs = B @ A @ C @ E @ D @ R"
    unfolding xs using l by (rule addresses_swapped_segments)
  show ?thesis
    unfolding sw unfolding xs using l assms(3) by (auto simp: nth_append)
qed

text \<open>
  C4. On a frame that holds a full link and network header, \<^verbatim>\<open>pkt_turnaround\<close>
  returns the redirect code with the ingress interface as target and leaves the frame with the
  two hardware addresses exchanged and the two network addresses exchanged. The length, the
  bytes 12 to 25 (EtherType and the network header up to the addresses) and every byte from
  offset 34 on (the UDP ports with the rest of the transport header, and the payload) are as
  before, and so are the other fields of the context.
\<close>

theorem turnaround_swaps_addresses_only:
  assumes "sizeof_ethhdr + sizeof_iphdr \<le> length (pkt skb)"
  shows "ret (pkt_turnaround e skb) = TC_ACT_REDIRECT \<and>
         tgt_index (pkt_turnaround e skb) = Some (ifindex skb) \<and>
         protocol (out_skb (pkt_turnaround e skb)) = protocol skb \<and>
         ifindex (out_skb (pkt_turnaround e skb)) = ifindex skb \<and>
         length (pkt (out_skb (pkt_turnaround e skb))) = length (pkt skb) \<and>
         field_bytes (pkt (out_skb (pkt_turnaround e skb))) off_h_dest 6 =
           field_bytes (pkt skb) off_h_source 6 \<and>
         field_bytes (pkt (out_skb (pkt_turnaround e skb))) off_h_source 6 =
           field_bytes (pkt skb) off_h_dest 6 \<and>
         field_bytes (pkt (out_skb (pkt_turnaround e skb))) (sizeof_ethhdr + off_saddr) 4 =
           field_bytes (pkt skb) (sizeof_ethhdr + off_daddr) 4 \<and>
         field_bytes (pkt (out_skb (pkt_turnaround e skb))) (sizeof_ethhdr + off_daddr) 4 =
           field_bytes (pkt skb) (sizeof_ethhdr + off_saddr) 4 \<and>
         (\<forall>i < length (pkt skb). (12 \<le> i \<and> i < 26) \<or> 34 \<le> i \<longrightarrow>
            pkt (out_skb (pkt_turnaround e skb)) ! i = pkt skb ! i) \<and>
         wire_source_port (pkt (out_skb (pkt_turnaround e skb))) = wire_source_port (pkt skb) \<and>
         wire_dest_port (pkt (out_skb (pkt_turnaround e skb))) = wire_dest_port (pkt skb) \<and>
         drop (sizeof_ethhdr + sizeof_iphdr + sizeof_udphdr) (pkt (out_skb (pkt_turnaround e skb))) =
           drop (sizeof_ethhdr + sizeof_iphdr + sizeof_udphdr) (pkt skb)"
proof -
  have len: "34 \<le> length (pkt skb)" using assms by (simp add: hdr_consts)
  have r: "pkt_turnaround e skb =
           \<lparr>out_skb = skb\<lparr>pkt := addresses_swapped (pkt skb)\<rparr>, ret = TC_ACT_REDIRECT,
            tgt_index = Some (ifindex skb), ret_at = Ret_redirect\<rparr>"
    using assms by (rule pkt_turnaround_long)
  have rest: "drop 34 (addresses_swapped (pkt skb)) = drop 34 (pkt skb)"
    using len by (rule addresses_swapped_fields)
  have ports: "field_bytes (addresses_swapped (pkt skb)) 34 2 = field_bytes (pkt skb) 34 2"
     "field_bytes (addresses_swapped (pkt skb)) 36 2 = field_bytes (pkt skb) 36 2"
    using arg_cong [OF rest, of "take 2"] arg_cong [OF rest, of "\<lambda>xs. take 2 (drop 2 xs)"]
    by (simp_all add: field_bytes_def)
  have payload: "drop 42 (addresses_swapped (pkt skb)) = drop 42 (pkt skb)"
    using arg_cong [OF rest, of "drop 8"] by simp
  show ?thesis
    unfolding r
    using addresses_swapped_fields [OF len] length_addresses_swapped [OF len]
      addresses_swapped_nth [OF len] ports payload
    by (simp add: hdr_consts wire_source_port_def wire_dest_port_def)
qed

theorem turnaround_swaps_addresses_only_witness:
  "sizeof_ethhdr + sizeof_iphdr \<le> length (pkt (probe_skb 862 862)) \<and>
   ret (pkt_turnaround Little (probe_skb 862 862)) = TC_ACT_REDIRECT \<and>
   tgt_index (pkt_turnaround Little (probe_skb 862 862)) = Some 3 \<and>
   field_bytes (pkt (out_skb (pkt_turnaround Little (probe_skb 862 862)))) 0 6 = [0x02, 0, 0, 0, 0, 0x0A] \<and>
   field_bytes (pkt (out_skb (pkt_turnaround Little (probe_skb 862 862)))) 26 4 = [10, 0, 0, 2] \<and>
   wire_source_port (pkt (out_skb (pkt_turnaround Little (probe_skb 862 862)))) = 862"
proof -
  have h: "sizeof_ethhdr + sizeof_iphdr \<le> length (pkt (probe_skb 862 862))"
    by (simp add: probe_eval)
  show ?thesis
    using h turnaround_swaps_addresses_only [OF h, of Little]
    by (simp add: probe_eval wire_source_port_def)
qed

text \<open>
  C5. On a frame shorter than a link header plus a network header, \<^verbatim>\<open>pkt_turnaround\<close>
  returns \<^verbatim>\<open>TCX_PASS\<close>, records no redirect target and leaves the context, and with it
  every byte of the frame, as it was.
\<close>

theorem turnaround_short_untouched:
  "length (pkt skb) < sizeof_ethhdr + sizeof_iphdr \<Longrightarrow>
     ret (pkt_turnaround e skb) = TCX_PASS \<and>
     tgt_index (pkt_turnaround e skb) = None \<and>
     out_skb (pkt_turnaround e skb) = skb \<and>
     pkt (out_skb (pkt_turnaround e skb)) = pkt skb"
  by (simp add: pkt_turnaround_short)

theorem turnaround_short_untouched_witness:
  "length (pkt short_skb) < sizeof_ethhdr + sizeof_iphdr \<and>
   ret (pkt_turnaround Little short_skb) = TCX_PASS \<and>
   pkt (out_skb (pkt_turnaround Little short_skb)) = take 33 (probe_frame 862 862)"
proof -
  have h: "length (pkt short_skb) < sizeof_ethhdr + sizeof_iphdr"
    by (simp add: probe_eval)
  show ?thesis
    using h turnaround_short_untouched [OF h, of Little]
    by (simp add: short_skb_def)
qed

text \<open>
  C6. Applying \<^verbatim>\<open>pkt_turnaround\<close> to its own output gives back the original context:
  the whole frame, and in particular both hardware addresses and both network addresses, are
  restored.
\<close>

theorem turnaround_twice:
  assumes "sizeof_ethhdr + sizeof_iphdr \<le> length (pkt skb)"
  shows "out_skb (pkt_turnaround e (out_skb (pkt_turnaround e skb))) = skb \<and>
         field_bytes (pkt (out_skb (pkt_turnaround e (out_skb (pkt_turnaround e skb))))) off_h_source 6 =
           field_bytes (pkt skb) off_h_source 6 \<and>
         field_bytes (pkt (out_skb (pkt_turnaround e (out_skb (pkt_turnaround e skb))))) off_h_dest 6 =
           field_bytes (pkt skb) off_h_dest 6 \<and>
         field_bytes (pkt (out_skb (pkt_turnaround e (out_skb (pkt_turnaround e skb)))))
             (sizeof_ethhdr + off_saddr) 4 =
           field_bytes (pkt skb) (sizeof_ethhdr + off_saddr) 4 \<and>
         field_bytes (pkt (out_skb (pkt_turnaround e (out_skb (pkt_turnaround e skb)))))
             (sizeof_ethhdr + off_daddr) 4 =
           field_bytes (pkt skb) (sizeof_ethhdr + off_daddr) 4"
proof -
  have len: "34 \<le> length (pkt skb)" using assms by (simp add: hdr_consts)
  have r: "out_skb (pkt_turnaround e skb) = skb\<lparr>pkt := addresses_swapped (pkt skb)\<rparr>"
    using assms by (simp add: pkt_turnaround_long)
  have "sizeof_ethhdr + sizeof_iphdr \<le> length (pkt (skb\<lparr>pkt := addresses_swapped (pkt skb)\<rparr>))"
    using assms length_addresses_swapped [OF len] by simp
  then have "out_skb (pkt_turnaround e (skb\<lparr>pkt := addresses_swapped (pkt skb)\<rparr>)) =
       skb\<lparr>pkt := addresses_swapped (pkt skb)\<rparr>\<lparr>pkt := addresses_swapped (pkt (skb\<lparr>pkt := addresses_swapped (pkt skb)\<rparr>))\<rparr>"
    by (simp add: pkt_turnaround_long)
  then have "out_skb (pkt_turnaround e (out_skb (pkt_turnaround e skb))) = skb"
    unfolding r using addresses_swapped_twice [OF len] by simp
  then show ?thesis by simp
qed

theorem turnaround_twice_witness:
  "sizeof_ethhdr + sizeof_iphdr \<le> length (pkt (probe_skb 862 862)) \<and>
   pkt (out_skb (pkt_turnaround Little (out_skb (pkt_turnaround Little (probe_skb 862 862))))) =
     probe_frame 862 862"
proof -
  have h: "sizeof_ethhdr + sizeof_iphdr \<le> length (pkt (probe_skb 862 862))"
    by (simp add: probe_eval)
  show ?thesis
    using h turnaround_twice [OF h, of Little]
    by (simp add: probe_skb_def)
qed

text \<open>
  C10. \<^verbatim>\<open>pkt_turnaround\<close> never returns from its second bounds check: a frame that
  passes the first comparison (34 bytes) passes the second (14 bytes), which uses the same two
  pointers. So the result is one of two: the context untouched with \<^verbatim>\<open>TCX_PASS\<close>, or
  both address pairs exchanged with the redirect code. A frame with only the network addresses
  exchanged is never produced.
\<close>

theorem turnaround_all_or_nothing:
  "ret_at (pkt_turnaround e skb) \<noteq> Ret_mac_check \<and>
   (\<not> sizeof_ethhdr + sizeof_iphdr > length (pkt skb) \<longrightarrow> \<not> sizeof_ethhdr > length (pkt skb)) \<and>
   (pkt_turnaround e skb =
      \<lparr>out_skb = skb, ret = TCX_PASS, tgt_index = None, ret_at = Ret_hdr_check\<rparr> \<or>
    pkt_turnaround e skb =
      \<lparr>out_skb = skb\<lparr>pkt := addresses_swapped (pkt skb)\<rparr>, ret = TC_ACT_REDIRECT,
       tgt_index = Some (ifindex skb), ret_at = Ret_redirect\<rparr>)"
proof (cases "length (pkt skb) < sizeof_ethhdr + sizeof_iphdr")
  case True
  then show ?thesis by (simp add: pkt_turnaround_short)
next
  case False
  then have "sizeof_ethhdr + sizeof_iphdr \<le> length (pkt skb)" by simp
  then show ?thesis by (simp add: pkt_turnaround_long)
qed

theorem turnaround_all_or_nothing_witness:
  "\<not> sizeof_ethhdr + sizeof_iphdr > length (pkt (probe_skb 862 862)) \<and>
   \<not> sizeof_ethhdr > length (pkt (probe_skb 862 862)) \<and>
   ret_at (pkt_turnaround Little (probe_skb 862 862)) = Ret_redirect \<and>
   ret_at (pkt_turnaround Little short_skb) = Ret_hdr_check"
proof -
  have "ret_at (pkt_turnaround Little (probe_skb 862 862)) = Ret_redirect"
    by (simp add: pkt_turnaround_def Let_def probe_eval)
  moreover have "ret_at (pkt_turnaround Little short_skb) = Ret_hdr_check"
    by (simp add: pkt_turnaround_def Let_def probe_eval)
  ultimately show ?thesis
    using turnaround_all_or_nothing [of Little "probe_skb 862 862"]
    by (simp add: probe_eval)
qed

section \<open>The offset helper\<close>

lemma unat_stampoffset: "unat (stampoffset off) = (42 + unat off) mod 4294967296"
proof -
  have "unat off < 4294967296" using unsigned_less [of off, where 'a = nat] by simp
  then have "42 + unat off < 18446744073709551616" by linarith
  then have "unat ((42 :: u64) + ucast off) = 42 + unat off"
    by (simp add: unat_word_ariths unat_ucast_32_64)
  then have "unat (ucast ((42 :: u64) + ucast off) :: u32) = (42 + unat off) mod 4294967296"
    by (simp add: unat_ucast_64_32)
  then show ?thesis by (simp add: stampoffset_def hdr_consts)
qed

text \<open>
  C7. The claim is that \<^verbatim>\<open>stampoffset\<close> returns the three header sizes plus the offset
  for every offset. The sum is formed in 64 bits and converted to the 32-bit return type, so
  what holds is: whenever the sum is below \<open>2^32\<close> (offsets up to 4294967253) the result
  is exactly the three header sizes plus the offset; for every offset it is that sum modulo
  \<open>2^32\<close>. At offset 0 it returns 14 + 20 + 8 = 42, and at the width of the sequence number
  it returns 42 + 4.
\<close>

theorem stampoffset_sum:
  "(sizeof_ethhdr + sizeof_iphdr + sizeof_udphdr + unat off < 2 ^ 32 \<longrightarrow>
      unat (stampoffset off) = sizeof_ethhdr + sizeof_iphdr + sizeof_udphdr + unat off) \<and>
   unat (stampoffset off) = (sizeof_ethhdr + sizeof_iphdr + sizeof_udphdr + unat off) mod 2 ^ 32 \<and>
   unat (stampoffset 0) = sizeof_ethhdr + sizeof_iphdr + sizeof_udphdr \<and>
   stampoffset 0 = 42 \<and>
   unat (stampoffset sizeof_seq) = sizeof_ethhdr + sizeof_iphdr + sizeof_udphdr + unat sizeof_seq \<and>
   stampoffset sizeof_seq = 42 + 4"
proof -
  have u: "unat (stampoffset off) = (14 + 20 + 8 + unat off) mod 2 ^ 32"
    by (simp add: unat_stampoffset)
  have x: "14 + 20 + 8 + unat off < 2 ^ 32 \<longrightarrow> unat (stampoffset off) = 14 + 20 + 8 + unat off"
    unfolding u by (rule impI) (rule mod_less)
  have z: "stampoffset 0 = 42" and q: "stampoffset sizeof_seq = 46"
    by (simp_all add: stampoffset_def hdr_consts sizeof_seq_def)
  have uz: "unat (stampoffset 0) = 42" and uq: "unat (stampoffset sizeof_seq) = 46"
    by (simp_all only: z q) (simp_all add: sizeof_seq_def)
  show ?thesis
    unfolding hdr_consts
    using x z q u uz uq by (simp add: sizeof_seq_def)
qed

theorem stampoffset_sum_witness:
  "sizeof_ethhdr + sizeof_iphdr + sizeof_udphdr + unat (12 :: u32) < 2 ^ 32 \<and>
   unat (stampoffset 12) = 54"
  using stampoffset_sum [of 12] by (simp add: hdr_consts)

text \<open>
  The claim as stated fails at the largest offset: the sum is 4294967337 and the function
  returns 41.
\<close>

theorem stampoffset_wraps_at_max:
  "stampoffset 4294967295 = 41 \<and>
   unat (stampoffset 4294967295) \<noteq>
     sizeof_ethhdr + sizeof_iphdr + sizeof_udphdr + unat (4294967295 :: u32)"
  by (simp add: stampoffset_def hdr_consts)

end
